theory Spec2Isabelle
  imports Complex_Main
begin

section \<open>Log-domain scores\<close>

text \<open>
  The decoders of \<^verbatim>\<open>beam_search_decoder.py\<close> and \<^verbatim>\<open>attention_seq2seq.py\<close> compute with
  Python floats in the log domain: \<^verbatim>\<open>LOG_0 = -float("inf")\<close>, \<^verbatim>\<open>LOG_1 = 0\<close>, \<^verbatim>\<open>p_b + p_t\<close> and
  \<^verbatim>\<open>np.logaddexp\<close>. A score is modelled as minus infinity or a finite real; rounding, NaN and
  plus infinity are outside the model.
\<close>

datatype lp = NegInf | Fin real

definition LOG_0 :: lp where
  "LOG_0 = NegInf"

definition LOG_1 :: lp where
  "LOG_1 = Fin 0"

fun lp_plus :: "lp \<Rightarrow> lp \<Rightarrow> lp" where
  "lp_plus NegInf y = NegInf"
| "lp_plus (Fin a) NegInf = NegInf"
| "lp_plus (Fin a) (Fin b) = Fin (a + b)"

fun lp_le :: "lp \<Rightarrow> lp \<Rightarrow> bool" where
  "lp_le NegInf y = True"
| "lp_le (Fin a) NegInf = False"
| "lp_le (Fin a) (Fin b) = (a \<le> b)"

instantiation lp :: plus
begin
definition plus_lp :: "lp \<Rightarrow> lp \<Rightarrow> lp" where
  "plus_lp x y = lp_plus x y"
instance ..
end

instantiation lp :: linorder
begin
definition less_eq_lp :: "lp \<Rightarrow> lp \<Rightarrow> bool" where
  "less_eq_lp x y = lp_le x y"
definition less_lp :: "lp \<Rightarrow> lp \<Rightarrow> bool" where
  "less_lp x y = (lp_le x y \<and> \<not> lp_le y x)"
instance
proof
  fix x y z :: lp
  show "(x < y) = (x \<le> y \<and> \<not> y \<le> x)"
    by (simp add: less_lp_def less_eq_lp_def)
  show "x \<le> x"
    by (cases x) (simp_all add: less_eq_lp_def)
  show "x \<le> y \<Longrightarrow> y \<le> z \<Longrightarrow> x \<le> z"
    by (cases x; cases y; cases z) (simp_all add: less_eq_lp_def)
  show "x \<le> y \<Longrightarrow> y \<le> x \<Longrightarrow> x = y"
    by (cases x; cases y) (simp_all add: less_eq_lp_def)
  show "x \<le> y \<or> y \<le> x"
    by (cases x; cases y) (auto simp add: less_eq_lp_def)
qed
end

text \<open>\<^verbatim>\<open>np.logaddexp(a, b)\<close> is \<open>ln (exp a + exp b)\<close>, with \<open>exp (-inf) = 0\<close>.\<close>

fun logaddexp :: "lp \<Rightarrow> lp \<Rightarrow> lp" where
  "logaddexp NegInf y = y"
| "logaddexp (Fin a) NegInf = Fin a"
| "logaddexp (Fin a) (Fin b) = Fin (ln (exp a + exp b))"

text \<open>The log of a probability \<open>q \<ge> 0\<close>, used to write concrete matrices.\<close>

definition of_prob :: "real \<Rightarrow> lp" where
  "of_prob q = (if q \<le> 0 then NegInf else Fin (ln q))"

section \<open>Python containers\<close>

datatype error = IndexError | AssertionError | NotImplementedError | RuntimeError
  | UnboundLocalError

text \<open>\<^verbatim>\<open>xs[:n]\<close>: a negative \<open>n\<close> drops the last \<open>-n\<close> elements.\<close>

definition py_slice_to :: "int \<Rightarrow> 'a list \<Rightarrow> 'a list" where
  "py_slice_to n xs = (if 0 \<le> n then take (nat n) xs else take (length xs - nat (- n)) xs)"

text \<open>
  \<^verbatim>\<open>sorted(xs, key=k, reverse=True)\<close>: descending, and stable (elements with equal keys keep
  their order): each element is inserted behind every element whose key is not smaller.
\<close>

fun insert_desc :: "('a \<Rightarrow> lp) \<Rightarrow> 'a \<Rightarrow> 'a list \<Rightarrow> 'a list" where
  "insert_desc k x [] = [x]"
| "insert_desc k x (y # ys) = (if k y < k x then x # y # ys else y # insert_desc k x ys)"

definition sorted_desc :: "('a \<Rightarrow> lp) \<Rightarrow> 'a list \<Rightarrow> 'a list" where
  "sorted_desc k xs = foldl (\<lambda>acc x. insert_desc k x acc) [] xs"

section \<open>CTC prefix beam search (\<^verbatim>\<open>BeamSearchDecoder.__call__\<close>)\<close>

type_synonym prefix = "nat list"
type_synonym beam_entry = "prefix \<times> (lp \<times> lp)"

text \<open>
  \<^verbatim>\<open>next_beam\<close> is a \<^verbatim>\<open>defaultdict\<close> whose missing keys read as \<^verbatim>\<open>(LOG_0, LOG_0)\<close>; a read of
  a missing key inserts it. The dictionary is an association list in insertion order, the
  order \<^verbatim>\<open>next_beam.items()\<close> yields.
\<close>

definition dd_get :: "beam_entry list \<Rightarrow> prefix \<Rightarrow> (lp \<times> lp) \<times> beam_entry list" where
  "dd_get d k = (case map_of d k of
      Some v \<Rightarrow> (v, d)
    | None \<Rightarrow> ((LOG_0, LOG_0), d @ [(k, (LOG_0, LOG_0))]))"

fun dd_set :: "beam_entry list \<Rightarrow> prefix \<Rightarrow> (lp \<times> lp) \<Rightarrow> beam_entry list" where
  "dd_set [] k v = [(k, v)]"
| "dd_set ((k', v') # d) k v = (if k' = k then (k, v) # d else (k', v') # dd_set d k v)"

definition dd_lookup :: "beam_entry list \<Rightarrow> prefix \<Rightarrow> lp \<times> lp" where
  "dd_lookup d k = fst (dd_get d k)"

text \<open>The body of the loop over the beam, lines 72 to 112, for class \<open>c\<close> with score \<open>p_t\<close>.\<close>

definition propose :: "int \<Rightarrow> nat \<Rightarrow> lp \<Rightarrow> beam_entry list \<Rightarrow> beam_entry \<Rightarrow> beam_entry list" where
  "propose blank c p_t next_beam e =
    (case e of (prefix, (p_b, p_nb)) \<Rightarrow>
      if int c = blank then
        (case dd_get next_beam prefix of ((new_p_b, new_p_nb), d1) \<Rightarrow>
          dd_set d1 prefix
            (logaddexp new_p_b (logaddexp (p_b + p_t) (p_nb + p_t)), new_p_nb))
      else
        (let prefix_end = (if prefix = [] then None else Some (last prefix));
             new_prefix = prefix @ [c]
         in case dd_get next_beam new_prefix of ((new_p_b, new_p_nb), d1) \<Rightarrow>
           (let new_p_nb' =
                  (if Some c \<noteq> prefix_end
                   then logaddexp new_p_nb (logaddexp (p_b + p_t) (p_nb + p_t))
                   else logaddexp new_p_nb (p_b + p_t));
                d2 = dd_set d1 new_prefix (new_p_b, new_p_nb')
            in if Some c = prefix_end then
                 (case dd_get d2 prefix of ((q_b, q_nb), d3) \<Rightarrow>
                    dd_set d3 prefix (q_b, logaddexp q_nb (p_nb + p_t)))
               else d2)))"

text \<open>\<^verbatim>\<open>log_probs[b, t, c]\<close> on the matrix of utterance \<open>b\<close>; out of range raises.\<close>

definition mat_get :: "lp list list \<Rightarrow> nat \<Rightarrow> nat \<Rightarrow> error + lp" where
  "mat_get m t c =
    (if t < length m \<and> c < length (m ! t) then Inr (m ! t ! c) else Inl IndexError)"

text \<open>The loop over the classes, lines 66 to 112.\<close>

fun class_loop ::
  "int \<Rightarrow> lp list list \<Rightarrow> nat \<Rightarrow> beam_entry list \<Rightarrow> nat list \<Rightarrow> beam_entry list
    \<Rightarrow> error + beam_entry list" where
  "class_loop blank m t beam [] next_beam = Inr next_beam"
| "class_loop blank m t beam (c # cs) next_beam =
    (case mat_get m t c of
       Inl e \<Rightarrow> Inl e
     | Inr p_t \<Rightarrow> class_loop blank m t beam cs (foldl (propose blank c p_t) next_beam beam))"

text \<open>The sort key of line 117, \<^verbatim>\<open>np.logaddexp(*x[1])\<close>.\<close>

definition beam_key :: "beam_entry \<Rightarrow> lp" where
  "beam_key x = logaddexp (fst (snd x)) (snd (snd x))"

text \<open>One time step: lines 64 to 119.\<close>

definition time_step ::
  "int \<Rightarrow> nat \<Rightarrow> lp list list \<Rightarrow> int \<Rightarrow> nat \<Rightarrow> beam_entry list \<Rightarrow> error + beam_entry list" where
  "time_step blank num_classes m beam_width t beam =
    (case class_loop blank m t beam [0..<num_classes] [] of
       Inl e \<Rightarrow> Inl e
     | Inr next_beam \<Rightarrow> Inr (py_slice_to beam_width (sorted_desc beam_key next_beam)))"

fun time_loop ::
  "int \<Rightarrow> nat \<Rightarrow> lp list list \<Rightarrow> int \<Rightarrow> nat list \<Rightarrow> beam_entry list \<Rightarrow> error + beam_entry list" where
  "time_loop blank num_classes m beam_width [] beam = Inr beam"
| "time_loop blank num_classes m beam_width (t # ts) beam =
    (case time_step blank num_classes m beam_width t beam of
       Inl e \<Rightarrow> Inl e
     | Inr beam' \<Rightarrow> time_loop blank num_classes m beam_width ts beam')"

text \<open>The beam after the time loop of one utterance, lines 58 to 119.\<close>

definition final_beam ::
  "int \<Rightarrow> nat \<Rightarrow> lp list list \<Rightarrow> int \<Rightarrow> int \<Rightarrow> error + beam_entry list" where
  "final_beam blank num_classes m time beam_width =
    time_loop blank num_classes m beam_width [0..<nat time] [([], (LOG_1, LOG_0))]"

text \<open>\<^verbatim>\<open>best_hyp = beam[0][0]\<close>, line 121.\<close>

definition decode_utt ::
  "int \<Rightarrow> nat \<Rightarrow> lp list list \<Rightarrow> int \<Rightarrow> int \<Rightarrow> error + prefix" where
  "decode_utt blank num_classes m time beam_width =
    (case final_beam blank num_classes m time beam_width of
       Inl e \<Rightarrow> Inl e
     | Inr [] \<Rightarrow> Inl IndexError
     | Inr (x # xs) \<Rightarrow> Inr (fst x))"

text \<open>
  The loop over the batch, lines 53 to 124. \<open>log_probs\<close> has shape \<open>[B, T, num_classes]\<close>;
  \<open>alpha\<close> and \<open>beta\<close> are parameters of the source.
\<close>

fun batch_loop ::
  "int \<Rightarrow> nat \<Rightarrow> lp list list list \<Rightarrow> int list \<Rightarrow> int \<Rightarrow> nat list \<Rightarrow> error + prefix list" where
  "batch_loop blank num_classes log_probs x_lens beam_width [] = Inr []"
| "batch_loop blank num_classes log_probs x_lens beam_width (b # bs) =
    (if b < length x_lens then
       (case decode_utt blank num_classes (log_probs ! b) (x_lens ! b) beam_width of
          Inl e \<Rightarrow> Inl e
        | Inr best_hyp \<Rightarrow>
           (case batch_loop blank num_classes log_probs x_lens beam_width bs of
              Inl e \<Rightarrow> Inl e
            | Inr best_hyps \<Rightarrow> Inr (best_hyp # best_hyps)))
     else Inl IndexError)"

definition call ::
  "int \<Rightarrow> nat \<Rightarrow> lp list list list \<Rightarrow> int list \<Rightarrow> int \<Rightarrow> real \<Rightarrow> real \<Rightarrow> error + prefix list" where
  "call blank num_classes log_probs x_lens beam_width alpha beta =
    batch_loop blank num_classes log_probs x_lens beam_width [0..<length log_probs]"

section \<open>Attention beam search (\<^verbatim>\<open>AttentionSeq2seq.decode\<close>, \<^verbatim>\<open>_decode_infer_beam\<close>)\<close>

text \<open>
  The network layers are outside the search: they are functions on tensor values. A tensor
  is the list of its entries; a decoder state (\<^verbatim>\<open>hx_list\<close>, and \<^verbatim>\<open>cx_list\<close> for an LSTM) is a
  list of tensors.
\<close>

type_synonym tensor = "real list"
type_synonym dstate = "tensor list"

text \<open>
  The layers of the main output in one direction, \<^verbatim>\<open>getattr(self, name + '_0_' + dir)\<close>:
  \<^item> \<open>init_dec_state enc\<close> is \<^verbatim>\<open>_init_dec_state\<close>, giving \<^verbatim>\<open>(dec_state, dec_out)\<close>;
  \<^item> \<open>attend enc dec_out aw_step\<close> gives \<^verbatim>\<open>(context_vec, aw_step)\<close>;
  \<^item> \<open>generate dec_out context_vec\<close> is
    \<^verbatim>\<open>F.log_softmax(fc(F.tanh(W_d(dec_out) + W_c(context_vec))))\<close>;
  \<^item> \<open>decoder y context_vec dec_state\<close> embeds the symbol \<open>y\<close>, concatenates the context and
    runs the decoder, giving \<^verbatim>\<open>(dec_out, dec_state)\<close>;
  \<^item> \<open>decoder_first y dec_state\<close> and \<open>decoder_second context_vec dec_state\<close> are the two
    decoders of the conditional order.
\<close>

record net =
  init_dec_state :: "tensor \<Rightarrow> dstate \<times> tensor"
  attend :: "tensor \<Rightarrow> tensor \<Rightarrow> tensor \<Rightarrow> tensor \<times> tensor"
  generate :: "tensor \<Rightarrow> tensor \<Rightarrow> lp list"
  decoder :: "nat \<Rightarrow> tensor \<Rightarrow> dstate \<Rightarrow> tensor \<times> dstate"
  decoder_first :: "nat \<Rightarrow> dstate \<Rightarrow> tensor \<times> dstate"
  decoder_second :: "tensor \<Rightarrow> dstate \<Rightarrow> tensor \<times> dstate"

datatype direction = Fwd | Bwd

text \<open>\<^verbatim>\<open>self.decoding_order\<close> is a string; \<open>OtherOrder\<close> is any string but the three.\<close>

datatype decoding_order = AttendGenerateUpdate | AttendUpdateGenerate | Conditional | OtherOrder

text \<open>
  The attributes of the model that decoding reads. \<open>head_0\<close> is the tensor slice
  \<^verbatim>\<open>[:, :, 0]\<close> of line 1197; \<open>decode_infer_greedy\<close> is the batched greedy path of lines 908 to
  1036, which the statements below do not enter.
\<close>

record model =
  fwd_weight_0 :: real
  bwd_weight_0 :: real
  order :: decoding_order
  sos_0 :: nat
  eos_0 :: nat
  num_heads_0 :: nat
  layers_0 :: "direction \<Rightarrow> net"
  head_0 :: "tensor \<Rightarrow> tensor"
  decode_infer_greedy ::
    "(tensor \<times> nat) list \<Rightarrow> int \<Rightarrow> direction \<Rightarrow> error + nat list list \<times> tensor list list"

text \<open>
  Decoder states are objects: a beam entry holds a reference to its state. The store of
  these objects is a list, a reference is an index into it, and a new object goes to the end.
  \<^verbatim>\<open>copy.deepcopy\<close> makes a new object with the value of the old one.
\<close>

type_synonym heap = "dstate list"

definition alloc :: "heap \<Rightarrow> dstate \<Rightarrow> nat \<times> heap" where
  "alloc h v = (length h, h @ [v])"

definition deepcopy :: "heap \<Rightarrow> nat \<Rightarrow> nat \<times> heap" where
  "deepcopy h a = alloc h (h ! a)"

text \<open>An entry of the beam, the dictionary of lines 1072 to 1076 and 1154 to 1159.\<close>

record hypothesis =
  hyp :: "nat list"
  score :: lp
  dec_state :: nat
  dec_out :: tensor
  aw_steps :: "tensor list"

text \<open>
  \<^verbatim>\<open>log_probs.topk(beam_width, largest=True, sorted=True)\<close>: the \<open>k\<close> largest entries with
  their indices, in descending order; torch raises when \<open>k\<close> is out of range. Equal entries
  are taken in the order of their indices.
\<close>

definition topk :: "int \<Rightarrow> lp list \<Rightarrow> error + (lp \<times> nat) list" where
  "topk k log_probs =
    (if k < 0 \<or> int (length log_probs) < k then Inl RuntimeError
     else Inr (take (nat k) (sorted_desc fst (zip log_probs [0..<length log_probs]))))"

text \<open>
  The loop over \<open>k\<close>, lines 1143 to 1159, in the order attend, generate, update: each
  candidate runs the decoder on the state of its parent, and the entry stores a deep copy of
  the result.
\<close>

fun branch_update ::
  "net \<Rightarrow> hypothesis \<Rightarrow> tensor \<Rightarrow> tensor \<Rightarrow> (lp \<times> nat) list \<Rightarrow> heap \<Rightarrow> hypothesis list \<times> heap" where
  "branch_update n b context_vec aw_step [] h = ([], h)"
| "branch_update n b context_vec aw_step ((log_prob, y) # rest) h =
    (case decoder n y context_vec (h ! dec_state b) of (dec_out', dec_state') \<Rightarrow>
      (case alloc h dec_state' of (a, h1) \<Rightarrow>
        (case deepcopy h1 a of (a', h2) \<Rightarrow>
          (case branch_update n b context_vec aw_step rest h2 of (es, h3) \<Rightarrow>
            (\<lparr>hyp = hyp b @ [y], score = score b + log_prob, dec_state = a',
              dec_out = dec_out', aw_steps = aw_steps b @ [aw_step]\<rparr> # es, h3)))))"

text \<open>
  The loop over \<open>k\<close> in the other two orders: the decoder has run once for the parent, with
  the result \<open>dec_out'\<close> and the state object \<open>a\<close>; each entry stores a deep copy of \<open>a\<close>.
\<close>

fun branch_copy ::
  "hypothesis \<Rightarrow> tensor \<Rightarrow> nat \<Rightarrow> tensor \<Rightarrow> (lp \<times> nat) list \<Rightarrow> heap \<Rightarrow> hypothesis list \<times> heap" where
  "branch_copy b dec_out' a aw_step [] h = ([], h)"
| "branch_copy b dec_out' a aw_step ((log_prob, y) # rest) h =
    (case deepcopy h a of (a', h1) \<Rightarrow>
      (case branch_copy b dec_out' a aw_step rest h1 of (es, h2) \<Rightarrow>
        (\<lparr>hyp = hyp b @ [y], score = score b + log_prob, dec_state = a',
          dec_out = dec_out', aw_steps = aw_steps b @ [aw_step]\<rparr> # es, h2)))"

text \<open>
  The body of the loop over the beam, lines 1080 to 1159: the candidates of one
  hypothesis. \<^verbatim>\<open>x[-1]\<close> on an empty list raises; with no branch taken \<^verbatim>\<open>logits_step\<close> is unbound.
\<close>

definition expand ::
  "model \<Rightarrow> direction \<Rightarrow> tensor \<Rightarrow> int \<Rightarrow> hypothesis \<Rightarrow> heap \<Rightarrow> error + hypothesis list \<times> heap" where
  "expand m dir enc beam_width b h =
    (let n = layers_0 m dir in
     case order m of
       AttendGenerateUpdate \<Rightarrow>
         (if aw_steps b = [] then Inl IndexError
          else case attend n enc (dec_out b) (last (aw_steps b)) of (context_vec, aw_step) \<Rightarrow>
            (case topk beam_width (generate n (dec_out b) context_vec) of
               Inl e \<Rightarrow> Inl e
             | Inr best_k \<Rightarrow> Inr (branch_update n b context_vec aw_step best_k h)))
     | AttendUpdateGenerate \<Rightarrow>
         (if hyp b = [] \<or> aw_steps b = [] then Inl IndexError
          else case attend n enc (dec_out b) (last (aw_steps b)) of (context_vec, aw_step) \<Rightarrow>
            (case decoder n (last (hyp b)) context_vec (h ! dec_state b) of
               (dec_out', dec_state') \<Rightarrow>
              (case alloc h dec_state' of (a, h1) \<Rightarrow>
                (case topk beam_width (generate n dec_out' context_vec) of
                   Inl e \<Rightarrow> Inl e
                 | Inr best_k \<Rightarrow> Inr (branch_copy b dec_out' a aw_step best_k h1)))))
     | Conditional \<Rightarrow>
         (if hyp b = [] \<or> aw_steps b = [] then Inl IndexError
          else case decoder_first n (last (hyp b)) (h ! dec_state b) of
            (dec_out1, dec_state1) \<Rightarrow>
            (case attend n enc dec_out1 (last (aw_steps b)) of (context_vec, aw_step) \<Rightarrow>
              (case decoder_second n context_vec dec_state1 of (dec_out', dec_state') \<Rightarrow>
                (case alloc h dec_state' of (a, h1) \<Rightarrow>
                  (case topk beam_width (generate n dec_out' context_vec) of
                     Inl e \<Rightarrow> Inl e
                   | Inr best_k \<Rightarrow> Inr (branch_copy b dec_out' a aw_step best_k h1))))))
     | OtherOrder \<Rightarrow> Inl UnboundLocalError)"

text \<open>The loop over the beam, lines 1078 to 1159, collecting \<^verbatim>\<open>new_beam\<close>.\<close>

fun beam_loop ::
  "model \<Rightarrow> direction \<Rightarrow> tensor \<Rightarrow> int \<Rightarrow> hypothesis list \<Rightarrow> heap
    \<Rightarrow> error + hypothesis list \<times> heap" where
  "beam_loop m dir enc beam_width [] h = Inr ([], h)"
| "beam_loop m dir enc beam_width (b # bs) h =
    (case expand m dir enc beam_width b h of
       Inl e \<Rightarrow> Inl e
     | Inr (es, h1) \<Rightarrow>
        (case beam_loop m dir enc beam_width bs h1 of
           Inl e \<Rightarrow> Inl e
         | Inr (es', h2) \<Rightarrow> Inr (es @ es', h2)))"

text \<open>
  The loop over the steps, lines 1077 to 1174, giving \<^verbatim>\<open>complete\<close>, \<^verbatim>\<open>beam\<close> and the store. On
  \<^verbatim>\<open>break\<close> the beam is the one the step started with.
\<close>

fun search_loop ::
  "model \<Rightarrow> direction \<Rightarrow> tensor \<Rightarrow> int \<Rightarrow> nat list \<Rightarrow> hypothesis list \<Rightarrow> hypothesis list
    \<Rightarrow> heap \<Rightarrow> error + hypothesis list \<times> hypothesis list \<times> heap" where
  "search_loop m dir enc beam_width [] completed beam h = Inr (completed, beam, h)"
| "search_loop m dir enc beam_width (t # ts) completed beam h =
    (case beam_loop m dir enc beam_width beam h of
       Inl e \<Rightarrow> Inl e
     | Inr (new_beam, h1) \<Rightarrow>
        (let cands = py_slice_to beam_width (sorted_desc score new_beam);
             completed' = completed @ filter (\<lambda>cand. last (hyp cand) = eos_0 m) cands;
             not_complete = filter (\<lambda>cand. last (hyp cand) \<noteq> eos_0 m) cands
         in if beam_width \<le> int (length completed')
            then Inr (py_slice_to beam_width completed', beam, h1)
            else search_loop m dir enc beam_width ts completed'
                   (py_slice_to beam_width not_complete) h1))"

text \<open>Lines 1180 to 1183: \<^verbatim>\<open>score += len(hyp) * length_penalty\<close> when the penalty is positive.\<close>

definition renormalize :: "real \<Rightarrow> hypothesis list \<Rightarrow> hypothesis list" where
  "renormalize length_penalty completed =
    (if 0 < length_penalty
     then map (\<lambda>c. c\<lparr>score := score c + Fin (real (length (hyp c)) * length_penalty)\<rparr>) completed
     else completed)"

text \<open>Lines 1176 to 1187: the entry \<^verbatim>\<open>complete[0]\<close> after the final ranking.\<close>

definition best_complete ::
  "real \<Rightarrow> hypothesis list \<Rightarrow> hypothesis list \<Rightarrow> error + hypothesis" where
  "best_complete length_penalty completed beam =
    (case sorted_desc score
            (renormalize length_penalty (if length completed = 0 then beam else completed)) of
       [] \<Rightarrow> Inl IndexError
     | c # cs \<Rightarrow> Inr c)"

text \<open>
  The first beam of an utterance, lines 1065 to 1076, for the encoder output \<open>enc\<close> of
  \<open>x_len\<close> frames: the store holds the initial decoder state only.
\<close>

definition init_beam :: "model \<Rightarrow> direction \<Rightarrow> tensor \<times> nat \<Rightarrow> hypothesis list \<times> heap" where
  "init_beam m dir utt =
    (case init_dec_state (layers_0 m dir) (fst utt) of (dec_state0, dec_out0) \<Rightarrow>
      (case alloc [] dec_state0 of (a, h) \<Rightarrow>
        ([\<lparr>hyp = [sos_0 m], score = LOG_1, dec_state = a, dec_out = dec_out0,
           aw_steps = [replicate (snd utt * num_heads_0 m) 0]\<rparr>], h)))"

text \<open>The search of one utterance, lines 1065 to 1177.\<close>

definition search_utt ::
  "model \<Rightarrow> direction \<Rightarrow> int \<Rightarrow> int \<Rightarrow> tensor \<times> nat
    \<Rightarrow> error + hypothesis list \<times> hypothesis list \<times> heap" where
  "search_utt m dir beam_width max_decode_len utt =
    (case init_beam m dir utt of (beam, h) \<Rightarrow>
       search_loop m dir (fst utt) beam_width [0..<nat max_decode_len] [] beam h)"

text \<open>
  One pass of the loop over the batch, lines 1063 to 1189: \<^verbatim>\<open>complete[0]['hyp'][1:]\<close> and
  \<^verbatim>\<open>complete[0]['aw_steps']\<close>.
\<close>

definition beam_utt ::
  "model \<Rightarrow> direction \<Rightarrow> int \<Rightarrow> int \<Rightarrow> real \<Rightarrow> tensor \<times> nat
    \<Rightarrow> error + nat list \<times> tensor list" where
  "beam_utt m dir beam_width max_decode_len length_penalty utt =
    (case search_utt m dir beam_width max_decode_len utt of
       Inl e \<Rightarrow> Inl e
     | Inr (completed, beam, h) \<Rightarrow>
        (case best_complete length_penalty completed beam of
           Inl e \<Rightarrow> Inl e
         | Inr c \<Rightarrow> Inr (drop 1 (hyp c), aw_steps c)))"

fun beam_batch ::
  "model \<Rightarrow> direction \<Rightarrow> int \<Rightarrow> int \<Rightarrow> real \<Rightarrow> (tensor \<times> nat) list
    \<Rightarrow> error + (nat list \<times> tensor list) list" where
  "beam_batch m dir beam_width max_decode_len length_penalty [] = Inr []"
| "beam_batch m dir beam_width max_decode_len length_penalty (utt # utts) =
    (case beam_utt m dir beam_width max_decode_len length_penalty utt of
       Inl e \<Rightarrow> Inl e
     | Inr r \<Rightarrow>
        (case beam_batch m dir beam_width max_decode_len length_penalty utts of
           Inl e \<Rightarrow> Inl e
         | Inr rs \<Rightarrow> Inr (r # rs)))"

text \<open>
  Lines 1192 to 1200: the first attention weights are dropped, head 0 is taken, and the
  steps are stacked; \<^verbatim>\<open>torch.stack\<close> of an empty list raises.
\<close>

fun stack_aw :: "model \<Rightarrow> tensor list list \<Rightarrow> error + tensor list list" where
  "stack_aw m [] = Inr []"
| "stack_aw m (aw_j # aw) =
    (case map (head_0 m) (drop 1 aw_j) of
       [] \<Rightarrow> Inl RuntimeError
     | x # xs \<Rightarrow> (case stack_aw m aw of Inl e \<Rightarrow> Inl e | Inr rest \<Rightarrow> Inr ((x # xs) # rest)))"

text \<open>\<^verbatim>\<open>_decode_infer_beam\<close>, lines 1055 to 1208, on the encoder outputs of the batch.\<close>

definition decode_infer_beam ::
  "model \<Rightarrow> (tensor \<times> nat) list \<Rightarrow> int \<Rightarrow> int \<Rightarrow> real \<Rightarrow> real \<Rightarrow> direction
    \<Rightarrow> error + nat list list \<times> tensor list list" where
  "decode_infer_beam m enc_out beam_width max_decode_len length_penalty coverage_penalty dir =
    (if dir = Bwd \<and> \<not> 0 < bwd_weight_0 m then Inl AssertionError
     else case beam_batch m dir beam_width max_decode_len length_penalty enc_out of
       Inl e \<Rightarrow> Inl e
     | Inr rs \<Rightarrow>
        (case stack_aw m (map snd rs) of
           Inl e \<Rightarrow> Inl e
         | Inr aw \<Rightarrow> if dir = Bwd then Inl NotImplementedError else Inr (map fst rs, aw)))"

text \<open>
  \<^verbatim>\<open>decode\<close>, lines 889 to 897, after the encoder: the direction with the larger weight, the
  greedy path for beam width 1 and the beam search otherwise.
\<close>

definition decode ::
  "model \<Rightarrow> (tensor \<times> nat) list \<Rightarrow> int \<Rightarrow> int \<Rightarrow> real \<Rightarrow> real
    \<Rightarrow> error + nat list list \<times> tensor list list" where
  "decode m enc_out beam_width max_decode_len length_penalty coverage_penalty =
    (let dir = (if bwd_weight_0 m \<le> fwd_weight_0 m then Fwd else Bwd) in
     if beam_width = 1 then decode_infer_greedy m enc_out max_decode_len dir
     else decode_infer_beam m enc_out beam_width max_decode_len length_penalty
            coverage_penalty dir)"

section \<open>Predicates and inputs of the statements\<close>

text \<open>A prefix without the blank label.\<close>

definition no_blank :: "int \<Rightarrow> prefix \<Rightarrow> bool" where
  "no_blank blank p = (\<forall>l\<in>set p. int l \<noteq> blank)"

text \<open>
  The first half of the repeat case, lines 89 to 102: the entry of the extended prefix
  receives the score \<open>x\<close>.
\<close>

definition repeat_extended :: "beam_entry list \<Rightarrow> prefix \<Rightarrow> nat \<Rightarrow> lp \<Rightarrow> beam_entry list" where
  "repeat_extended d prefix c x =
     dd_set (snd (dd_get d (prefix @ [c]))) (prefix @ [c])
       (fst (dd_lookup d (prefix @ [c])), logaddexp (snd (dd_lookup d (prefix @ [c]))) x)"

text \<open>
  Three frames over the classes blank (0) and a (1), favouring a, blank, a; and one frame
  favouring the blank.
\<close>

definition m_aba :: "lp list list" where
  "m_aba = [[of_prob (1/10), of_prob (9/10)],
            [of_prob (9/10), of_prob (1/10)],
            [of_prob (1/10), of_prob (9/10)]]"

definition m_blank :: "lp list list" where
  "m_blank = [[of_prob (9/10), of_prob (1/10)]]"

text \<open>
  A model whose layers ignore their inputs: of the three classes, class 2 (the end symbol)
  always has probability 7/10; the start symbol is 3. The backward weight and the decoding
  order are parameters.
\<close>

definition net_fixed :: net where
  "net_fixed = \<lparr>init_dec_state = (\<lambda>enc. ([[0]], [0])),
     attend = (\<lambda>enc dec_out aw_step. ([0], [1])),
     generate = (\<lambda>dec_out context_vec. [of_prob (1/10), of_prob (2/10), of_prob (7/10)]),
     decoder = (\<lambda>y context_vec dec_state. ([real y], dec_state)),
     decoder_first = (\<lambda>y dec_state. ([real y], dec_state)),
     decoder_second = (\<lambda>context_vec dec_state. (context_vec, dec_state))\<rparr>"

definition model_fixed :: "real \<Rightarrow> decoding_order \<Rightarrow> model" where
  "model_fixed bwd ord = \<lparr>fwd_weight_0 = 1 - bwd, bwd_weight_0 = bwd, order = ord,
     sos_0 = 3, eos_0 = 2, num_heads_0 = 1, layers_0 = (\<lambda>dir. net_fixed), head_0 = (\<lambda>aw. aw),
     decode_infer_greedy = (\<lambda>enc_out max_decode_len dir. Inr ([], []))\<rparr>"

text \<open>Two completed hypotheses, of lengths 3 and 5 and raw scores -2.0 and -2.3.\<close>

definition hyp_len3 :: hypothesis where
  "hyp_len3 = \<lparr>hyp = [3, 0, 2], score = Fin (- 2), dec_state = 0, dec_out = [],
     aw_steps = []\<rparr>"

definition hyp_len5 :: hypothesis where
  "hyp_len5 = \<lparr>hyp = [3, 0, 1, 0, 2], score = Fin (- 23 / 10), dec_state = 0, dec_out = [],
     aw_steps = []\<rparr>"


text \<open>
  The entries \<open>es\<close> made from the store \<open>h\<close>, leaving the store \<open>h'\<close>: their state references
  differ from each other; each refers to an object made after \<open>h\<close> that has the value
  \<open>val e\<close>, as has another object (the one it was copied from); and the objects of \<open>h\<close> are
  unchanged.
\<close>

definition copies_of :: "(hypothesis \<Rightarrow> dstate) \<Rightarrow> heap \<Rightarrow> hypothesis list \<Rightarrow> heap \<Rightarrow> bool" where
  "copies_of val h es h' =
    (distinct (map dec_state es)
     \<and> (\<forall>e\<in>set es. length h \<le> dec_state e \<and> dec_state e < length h'
           \<and> h' ! dec_state e = val e
           \<and> (\<exists>a<length h'. a \<noteq> dec_state e \<and> h' ! a = val e))
     \<and> length h \<le> length h' \<and> take (length h) h' = h)"




text \<open>
  A hypothesis that starts with the start symbol and has one attention tensor per symbol;
  and one that has been extended at least once.
\<close>

definition well_started :: "nat \<Rightarrow> hypothesis \<Rightarrow> bool" where
  "well_started sos c = (hyp c \<noteq> [] \<and> hd (hyp c) = sos \<and> length (aw_steps c) = length (hyp c))"

definition extended :: "nat \<Rightarrow> hypothesis \<Rightarrow> bool" where
  "extended sos c = (well_started sos c \<and> 2 \<le> length (hyp c))"

text \<open>
  The ranking score of \<^verbatim>\<open>beam[0]\<close>, the entry whose prefix line 121 returns.
\<close>

definition best_score :: "int \<Rightarrow> nat \<Rightarrow> lp list list \<Rightarrow> int \<Rightarrow> int \<Rightarrow> error + lp" where
  "best_score blank num_classes m time beam_width =
    (case final_beam blank num_classes m time beam_width of
       Inl e \<Rightarrow> Inl e
     | Inr [] \<Rightarrow> Inl IndexError
     | Inr (x # xs) \<Rightarrow> Inr (beam_key x))"

text \<open>
  Three frames over the classes blank (0), a (1) and b (2), each a probability distribution
  without zeros, on which pruning to two entries keeps a prefix that pruning to three entries
  loses.
\<close>

definition m_prune :: "lp list list" where
  "m_prune = [[of_prob (3/10), of_prob (3/10), of_prob (2/5)],
              [of_prob (2/5), of_prob (1/10), of_prob (1/2)],
              [of_prob (1/10), of_prob (1/10), of_prob (4/5)]]"

section \<open>Evaluation of scores\<close>

lemma of_prob_plus:
  "0 \<le> a \<Longrightarrow> 0 \<le> b \<Longrightarrow> of_prob a + of_prob b = of_prob (a * b)"
  by (auto simp add: of_prob_def plus_lp_def ln_mult mult_le_0_iff)

lemma of_prob_logaddexp:
  "0 \<le> a \<Longrightarrow> 0 \<le> b \<Longrightarrow> logaddexp (of_prob a) (of_prob b) = of_prob (a + b)"
  by (auto simp add: of_prob_def)

lemma of_prob_less:
  "0 \<le> a \<Longrightarrow> 0 \<le> b \<Longrightarrow> (of_prob a < of_prob b) = (a < b)"
  by (auto simp add: of_prob_def less_lp_def)

lemma of_prob_le:
  "0 \<le> a \<Longrightarrow> 0 \<le> b \<Longrightarrow> (of_prob a \<le> of_prob b) = (a \<le> b)"
  by (auto simp add: of_prob_def less_eq_lp_def)

lemma of_prob_eq:
  "0 \<le> a \<Longrightarrow> 0 \<le> b \<Longrightarrow> (of_prob a = of_prob b) = (a = b)"
  by (auto simp add: of_prob_def)

lemma LOG_0_of_prob: "LOG_0 = of_prob 0"
  by (simp add: LOG_0_def of_prob_def)

lemma LOG_1_of_prob: "LOG_1 = of_prob 1"
  by (simp add: LOG_1_def of_prob_def)

lemmas of_prob_simps =
  of_prob_plus of_prob_logaddexp of_prob_less of_prob_le of_prob_eq LOG_0_of_prob LOG_1_of_prob

lemmas ctc_eval = decode_utt_def final_beam_def time_step_def mat_get_def propose_def
  dd_get_def sorted_desc_def py_slice_to_def beam_key_def of_prob_simps upt_rec

lemmas attn_eval = decode_def decode_infer_beam_def beam_utt_def search_utt_def init_beam_def
  best_complete_def renormalize_def expand_def topk_def alloc_def deepcopy_def
  model_fixed_def net_fixed_def sorted_desc_def py_slice_to_def of_prob_simps upt_rec

section \<open>The default dictionary\<close>

lemma map_of_dd_set: "map_of (dd_set d k v) = (map_of d)(k \<mapsto> v)"
  by (induction d k v rule: dd_set.induct) auto

lemma dd_lookup_alt:
  "dd_lookup d k = (case map_of d k of Some v \<Rightarrow> v | None \<Rightarrow> (LOG_0, LOG_0))"
  by (simp add: dd_lookup_def dd_get_def split: option.splits)

lemma dd_lookup_dd_set:
  "dd_lookup (dd_set d k v) k' = (if k' = k then v else dd_lookup d k')"
  by (simp add: dd_lookup_alt map_of_dd_set)

lemma dd_lookup_dd_get:
  "dd_lookup (snd (dd_get d k)) k' = dd_lookup d k'"
  by (cases "map_of d k") (auto simp add: dd_lookup_alt dd_get_def split: option.splits if_splits)

lemma keys_dd_set: "fst ` set (dd_set d k v) = insert k (fst ` set d)"
  by (induction d k v rule: dd_set.induct) auto

lemma keys_dd_get: "fst ` set (snd (dd_get d k)) = insert k (fst ` set d)"
proof (cases "map_of d k")
  case None
  then show ?thesis by (simp add: dd_get_def)
next
  case (Some v)
  then have "k \<in> fst ` set d"
    by (metis map_of_eq_None_iff option.distinct(1))
  with Some show ?thesis by (auto simp add: dd_get_def)
qed

section \<open>CTC: the three cases of the loop body\<close>

lemma propose_blank:
  "int c = blank \<Longrightarrow>
   propose blank c p_t d (prefix, (p_b, p_nb)) =
     dd_set (snd (dd_get d prefix)) prefix
       (logaddexp (fst (dd_lookup d prefix)) (logaddexp (p_b + p_t) (p_nb + p_t)),
        snd (dd_lookup d prefix))"
  by (simp add: propose_def case_prod_unfold dd_lookup_def)

lemma propose_extend:
  "int c \<noteq> blank \<Longrightarrow> prefix = [] \<or> last prefix \<noteq> c \<Longrightarrow>
   propose blank c p_t d (prefix, (p_b, p_nb)) =
     dd_set (snd (dd_get d (prefix @ [c]))) (prefix @ [c])
       (fst (dd_lookup d (prefix @ [c])),
        logaddexp (snd (dd_lookup d (prefix @ [c]))) (logaddexp (p_b + p_t) (p_nb + p_t)))"
  by (auto simp add: propose_def case_prod_unfold dd_lookup_def Let_def)

lemma propose_same_label:
  "int c \<noteq> blank \<Longrightarrow> prefix \<noteq> [] \<Longrightarrow> last prefix = c \<Longrightarrow>
   propose blank c p_t d (prefix, (p_b, p_nb)) =
     dd_set (snd (dd_get (repeat_extended d prefix c (p_b + p_t)) prefix)) prefix
       (fst (dd_lookup (repeat_extended d prefix c (p_b + p_t)) prefix),
        logaddexp (snd (dd_lookup (repeat_extended d prefix c (p_b + p_t)) prefix)) (p_nb + p_t))"
  by (simp add: propose_def case_prod_unfold dd_lookup_def Let_def repeat_extended_def)

lemma keys_propose:
  "fst ` set (propose blank c p_t d (prefix, (p_b, p_nb))) \<subseteq>
     fst ` set d \<union> {prefix} \<union> (if int c = blank then {} else {prefix @ [c]})"
proof -
  consider "int c = blank" | "int c \<noteq> blank" "prefix = [] \<or> last prefix \<noteq> c"
    | "int c \<noteq> blank" "prefix \<noteq> []" "last prefix = c"
    by blast
  then show ?thesis
  proof cases
    case 1
    then show ?thesis
      by (simp add: propose_blank keys_dd_set keys_dd_get)
  next
    case 2
    then show ?thesis
      by (auto simp add: propose_extend keys_dd_set keys_dd_get)
  next
    case 3
    then show ?thesis
      by (auto simp add: propose_same_label repeat_extended_def keys_dd_set keys_dd_get)
  qed
qed

section \<open>CTC: the repeated label\<close>

text \<open>
  Claim C1, as the code has it. When the proposed class \<open>c\<close> is not the blank and equals the
  last label of the prefix, one pass through the loop body (i) adds \<open>p_nb + p_t\<close>, the previous
  non-blank score of the prefix, to the non-blank score of the unchanged prefix, and (ii) adds
  \<open>p_b + p_t\<close>, the previous blank score only, to the non-blank score of the extended prefix.
  Nothing else of the two entries changes.
\<close>

theorem propose_repeat:
  assumes "prefix \<noteq> []" and "last prefix = c" and "int c \<noteq> blank"
  shows "dd_lookup (propose blank c p_t next_beam (prefix, (p_b, p_nb))) prefix =
           (fst (dd_lookup next_beam prefix),
            logaddexp (snd (dd_lookup next_beam prefix)) (p_nb + p_t))
       \<and> dd_lookup (propose blank c p_t next_beam (prefix, (p_b, p_nb))) (prefix @ [c]) =
           (fst (dd_lookup next_beam (prefix @ [c])),
            logaddexp (snd (dd_lookup next_beam (prefix @ [c]))) (p_b + p_t))"
proof -
  obtain v1 d1 where g1: "dd_get next_beam (prefix @ [c]) = (v1, d1)"
    by (cases "dd_get next_beam (prefix @ [c])")
  have v1: "v1 = dd_lookup next_beam (prefix @ [c])"
    using g1 by (simp add: dd_lookup_def)
  have d1: "\<And>k. dd_lookup d1 k = dd_lookup next_beam k"
    using dd_lookup_dd_get [of next_beam "prefix @ [c]"] g1 by simp
  define d2 where "d2 = dd_set d1 (prefix @ [c]) (fst v1, logaddexp (snd v1) (p_b + p_t))"
  obtain v3 d3 where g3: "dd_get d2 prefix = (v3, d3)"
    by (cases "dd_get d2 prefix")
  have v3: "v3 = dd_lookup next_beam prefix"
  proof -
    have "v3 = dd_lookup d2 prefix"
      using g3 by (simp add: dd_lookup_def)
    then show ?thesis
      using assms by (simp add: d2_def dd_lookup_dd_set d1)
  qed
  have d3: "\<And>k. dd_lookup d3 k = dd_lookup d2 k"
    using dd_lookup_dd_get [of d2 prefix] g3 by simp
  have p: "propose blank c p_t next_beam (prefix, (p_b, p_nb)) =
             dd_set d3 prefix (fst v3, logaddexp (snd v3) (p_nb + p_t))"
    using assms g1 g3 by (cases v1; cases v3) (simp add: propose_def d2_def)
  show ?thesis
    by (simp add: p dd_lookup_dd_set d3 d2_def d1 v1 v3)
qed

theorem propose_repeat_witness:
  "dd_lookup (propose 0 1 (of_prob (1/2)) [] ([1], (of_prob (1/2), of_prob (1/4)))) [1] =
     (LOG_0, of_prob (1/8))
   \<and> dd_lookup (propose 0 1 (of_prob (1/2)) [] ([1], (of_prob (1/2), of_prob (1/4)))) [1, 1] =
     (LOG_0, of_prob (1/4))"
  using propose_repeat [of "[1]" 1 0 "of_prob (1/2)" "[]" "of_prob (1/2)" "of_prob (1/4)"]
  by (simp add: dd_lookup_def dd_get_def of_prob_simps)

text \<open>
  Claim C1 as stated says that the unchanged prefix is updated with \<open>p_b + p_t\<close>. For the
  prefix \<open>[1]\<close> with \<open>p_b = ln (1/2)\<close>, \<open>p_nb = ln (1/4)\<close> and \<open>p_t = ln (1/2)\<close> the code
  stores \<open>ln (1/8) = p_nb + p_t\<close>, not \<open>ln (1/4) = p_b + p_t\<close>.
\<close>

theorem propose_repeat_unextended_counterexample:
  "snd (dd_lookup (propose 0 1 (of_prob (1/2)) [] ([1], (of_prob (1/2), of_prob (1/4)))) [1])
     = of_prob (1/8)
   \<and> logaddexp (snd (dd_lookup [] [1])) (of_prob (1/2) + of_prob (1/2)) = of_prob (1/4)
   \<and> of_prob (1/8) \<noteq> of_prob (1/4)"
  by (simp add: propose_def dd_lookup_def dd_get_def of_prob_simps)

section \<open>CTC: the unused parameters\<close>

text \<open>
  Claim C10. The result of the CTC beam decoder on a batch does not depend on \<open>alpha\<close>
  (language model weight) nor on \<open>beta\<close> (insertion bonus), whatever the matrix, the lengths
  and the beam width are.
\<close>

theorem call_ignores_alpha_beta:
  "call blank num_classes log_probs x_lens beam_width alpha beta =
   call blank num_classes log_probs x_lens beam_width alpha' beta'"
  by (simp add: call_def)

section \<open>CTC: prefixes never hold the blank\<close>

lemma no_blank_propose:
  assumes "\<forall>k\<in>fst ` set d. no_blank blank k" and "no_blank blank (fst e)"
  shows "\<forall>k\<in>fst ` set (propose blank c p_t d e). no_blank blank k"
proof
  fix k
  assume k: "k \<in> fst ` set (propose blank c p_t d e)"
  obtain prefix p_b p_nb where e: "e = (prefix, (p_b, p_nb))"
    by (cases e) auto
  have pre: "no_blank blank prefix"
    using assms(2) by (simp add: e)
  have k': "k \<in> fst ` set (propose blank c p_t d (prefix, (p_b, p_nb)))"
    using k by (simp only: e)
  have mem: "k \<in> fst ` set d \<union> {prefix} \<union> (if int c = blank then {} else {prefix @ [c]})"
    by (rule subsetD [OF keys_propose k'])
  show "no_blank blank k"
  proof (cases "int c = blank")
    case True
    with mem have "k \<in> fst ` set d \<or> k = prefix"
      by auto
    then show ?thesis
      using assms(1) pre by blast
  next
    case False
    then have ext: "no_blank blank (prefix @ [c])"
      using pre by (simp add: no_blank_def)
    from False mem have "k \<in> fst ` set d \<or> k = prefix \<or> k = prefix @ [c]"
      by auto
    then show ?thesis
      using assms(1) pre ext by blast
  qed
qed

lemma no_blank_foldl:
  assumes "\<forall>k\<in>fst ` set d. no_blank blank k" and "\<forall>e\<in>set beam. no_blank blank (fst e)"
  shows "\<forall>k\<in>fst ` set (foldl (propose blank c p_t) d beam). no_blank blank k"
  using assms
proof (induction beam arbitrary: d)
  case Nil
  then show ?case by simp
next
  case (Cons e beam)
  have e: "no_blank blank (fst e)"
    using Cons.prems(2) by simp
  have rest: "\<forall>e\<in>set beam. no_blank blank (fst e)"
    using Cons.prems(2) by simp
  have "\<forall>k\<in>fst ` set (propose blank c p_t d e). no_blank blank k"
    by (rule no_blank_propose [OF Cons.prems(1) e])
  then have "\<forall>k\<in>fst ` set (foldl (propose blank c p_t) (propose blank c p_t d e) beam).
      no_blank blank k"
    using rest by (rule Cons.IH)
  then show ?case by simp
qed

lemma no_blank_class_loop:
  assumes "class_loop blank m t beam cs d = Inr d'"
    and "\<forall>k\<in>fst ` set d. no_blank blank k" and "\<forall>e\<in>set beam. no_blank blank (fst e)"
  shows "\<forall>k\<in>fst ` set d'. no_blank blank k"
  using assms
proof (induction cs arbitrary: d)
  case Nil
  then show ?case by simp
next
  case (Cons c cs)
  from Cons.prems(1) obtain p_t where p: "mat_get m t c = Inr p_t"
    and r: "class_loop blank m t beam cs (foldl (propose blank c p_t) d beam) = Inr d'"
    by (auto split: sum.splits)
  show ?case
    using Cons.IH [OF r] no_blank_foldl [OF Cons.prems(2) Cons.prems(3)] Cons.prems(3)
    by blast
qed

lemma set_insert_desc: "set (insert_desc k x xs) = insert x (set xs)"
  by (induction xs) auto

lemma set_foldl_insert_desc:
  "set (foldl (\<lambda>acc x. insert_desc k x acc) acc xs) = set acc \<union> set xs"
  by (induction xs arbitrary: acc) (auto simp add: set_insert_desc)

lemma set_sorted_desc: "set (sorted_desc k xs) = set xs"
  by (simp add: sorted_desc_def set_foldl_insert_desc)

lemma set_py_slice_to: "set (py_slice_to n xs) \<subseteq> set xs"
  by (auto simp add: py_slice_to_def dest: in_set_takeD)

lemma no_blank_time_step:
  assumes "time_step blank num_classes m beam_width t beam = Inr beam'"
    and "\<forall>e\<in>set beam. no_blank blank (fst e)"
  shows "\<forall>e\<in>set beam'. no_blank blank (fst e)"
proof -
  from assms(1) obtain d where d: "class_loop blank m t beam [0..<num_classes] [] = Inr d"
    and b: "beam' = py_slice_to beam_width (sorted_desc beam_key d)"
    by (auto simp add: time_step_def split: sum.splits)
  have "\<forall>k\<in>fst ` set d. no_blank blank k"
    using no_blank_class_loop [OF d _ assms(2)] by simp
  then show ?thesis
    using set_py_slice_to [of beam_width "sorted_desc beam_key d"]
    by (auto simp add: b set_sorted_desc)
qed

lemma no_blank_time_loop:
  assumes "time_loop blank num_classes m beam_width ts beam = Inr beam'"
    and "\<forall>e\<in>set beam. no_blank blank (fst e)"
  shows "\<forall>e\<in>set beam'. no_blank blank (fst e)"
  using assms
proof (induction ts arbitrary: beam)
  case Nil
  then show ?case by simp
next
  case (Cons t ts)
  from Cons.prems(1) obtain b1 where s: "time_step blank num_classes m beam_width t beam = Inr b1"
    and r: "time_loop blank num_classes m beam_width ts b1 = Inr beam'"
    by (auto split: sum.splits)
  show ?case
    using Cons.IH [OF r] no_blank_time_step [OF s Cons.prems(2)] by blast
qed

lemma decode_utt_Inr:
  assumes "decode_utt blank num_classes m time beam_width = Inr best_hyp"
  obtains s fb where "final_beam blank num_classes m time beam_width = Inr ((best_hyp, s) # fb)"
  using assms by (auto simp add: decode_utt_def split: sum.splits list.splits)

text \<open>
  Claim C8, as the code has it. Decoding with beam width 1 is a function of its input, and
  a returned label sequence never contains the blank label.
\<close>

theorem decode_utt_greedy_no_blank:
  assumes "decode_utt blank num_classes m time 1 = Inr best_hyp"
  shows "\<forall>l\<in>set best_hyp. int l \<noteq> blank"
proof -
  from assms obtain s fb where f: "final_beam blank num_classes m time 1 = Inr ((best_hyp, s) # fb)"
    by (rule decode_utt_Inr)
  have "\<forall>e\<in>set ((best_hyp, s) # fb). no_blank blank (fst e)"
    using f unfolding final_beam_def
    by (rule no_blank_time_loop) (simp add: no_blank_def)
  then show ?thesis by (simp add: no_blank_def)
qed

lemma decode_m_aba: "decode_utt 0 2 m_aba 3 1 = Inr [1, 1]"
  by (simp add: m_aba_def ctc_eval)

theorem decode_utt_greedy_no_blank_witness:
  "decode_utt 0 2 m_aba 3 1 = Inr [1, 1] \<and> list_all (\<lambda>l. int l \<noteq> 0) [1, 1 :: nat]"
  using decode_utt_greedy_no_blank [of 0 2 m_aba 3 "[1, 1]"] decode_m_aba by simp

text \<open>
  Claim C8 as stated also excludes two identical adjacent labels. On three frames favouring
  a, blank, a the decoder with beam width 1 returns \<open>[a, a]\<close>: labels separated by a blank
  frame are both kept.
\<close>

theorem decode_utt_adjacent_repeat_counterexample:
  "decode_utt 0 2 m_aba 3 1 = Inr [1, 1] \<and> \<not> distinct_adj [1, 1 :: nat]"
  by (simp add: m_aba_def ctc_eval)


section \<open>CTC: the beam is sorted\<close>













section \<open>Attention: the length penalty\<close>

text \<open>
  Claim C7. With \<open>length_penalty = 0.1\<close>, two completed hypotheses of length 3 with raw score
  -2.0 and of length 5 with raw score -2.3 get the adjusted scores -1.7 and -1.8, by
  \<open>score + length * length_penalty\<close> applied once before the final ranking, and the ranking
  selects the hypothesis of length 3, in whichever order the two were completed.
\<close>

theorem length_penalty_scenario:
  assumes "length (hyp h3) = 3" and "score h3 = Fin (- 2)"
    and "length (hyp h5) = 5" and "score h5 = Fin (- 23 / 10)"
  shows "map score (renormalize (1 / 10) [h3, h5]) = [Fin (- 17 / 10), Fin (- 18 / 10)]
     \<and> best_complete (1 / 10) [h3, h5] beam = Inr (h3\<lparr>score := Fin (- 17 / 10)\<rparr>)
     \<and> best_complete (1 / 10) [h5, h3] beam = Inr (h3\<lparr>score := Fin (- 17 / 10)\<rparr>)"
  using assms
  by (simp add: renormalize_def best_complete_def sorted_desc_def plus_lp_def less_lp_def)

theorem length_penalty_scenario_witness:
  "map score (renormalize (1 / 10) [hyp_len3, hyp_len5]) = [Fin (- 17 / 10), Fin (- 18 / 10)]
   \<and> best_complete (1 / 10) [hyp_len3, hyp_len5] [] = Inr (hyp_len3\<lparr>score := Fin (- 17 / 10)\<rparr>)
   \<and> best_complete (1 / 10) [hyp_len5, hyp_len3] [] = Inr (hyp_len3\<lparr>score := Fin (- 17 / 10)\<rparr>)"
  using length_penalty_scenario [of hyp_len3 hyp_len5 "[]"]
  by (simp add: hyp_len3_def hyp_len5_def)

section \<open>Attention: beam search in the backward direction\<close>

text \<open>
  Claim C4. With a beam width above 1 and the backward weight larger than the forward weight,
  \<open>decode\<close> ends in an error on every input, and never returns label sequences; when the search
  itself goes through, the error is \<open>NotImplementedError\<close>.
\<close>

theorem decode_backward_beam_fails:
  assumes "1 < beam_width" and "fwd_weight_0 m < bwd_weight_0 m"
  shows "(\<exists>e. decode m enc_out beam_width max_decode_len length_penalty coverage_penalty = Inl e)
    \<and> (\<forall>rs aw. 0 < bwd_weight_0 m
          \<and> beam_batch m Bwd beam_width max_decode_len length_penalty enc_out = Inr rs
          \<and> stack_aw m (map snd rs) = Inr aw \<longrightarrow>
        decode m enc_out beam_width max_decode_len length_penalty coverage_penalty
          = Inl NotImplementedError)"
  using assms
  by (auto simp add: decode_def decode_infer_beam_def split: sum.splits)


theorem decode_backward_beam_fails_witness:
  "1 < (2 :: int)
   \<and> fwd_weight_0 (model_fixed 1 Conditional) < bwd_weight_0 (model_fixed 1 Conditional)
   \<and> decode (model_fixed 1 Conditional) [([0], 1)] 2 5 0 0 = Inl NotImplementedError"
  using decode_backward_beam_fails [of 2 "model_fixed 1 Conditional" "[([0], 1)]" 5 0 0]
  by (simp add: attn_eval)

section \<open>Invalid configurations\<close>

lemma time_step_width_0:
  "time_step blank num_classes m 0 t beam = Inr beam' \<Longrightarrow> beam' = []"
  by (auto simp add: time_step_def py_slice_to_def split: sum.splits)

lemma time_loop_width_0:
  "ts \<noteq> [] \<Longrightarrow> time_loop blank num_classes m 0 ts beam = Inr beam' \<Longrightarrow> beam' = []"
proof (induction ts arbitrary: beam)
  case Nil
  then show ?case by simp
next
  case (Cons t ts)
  from Cons.prems(2) obtain b1 where s: "time_step blank num_classes m 0 t beam = Inr b1"
    and r: "time_loop blank num_classes m 0 ts b1 = Inr beam'"
    by (auto split: sum.splits)
  have b1: "b1 = []"
    using s by (rule time_step_width_0)
  show ?case
  proof (cases ts)
    case Nil
    with r b1 show ?thesis by simp
  next
    case (Cons t' ts')
    then have "ts \<noteq> []" by simp
    then show ?thesis using r by (rule Cons.IH)
  qed
qed

lemma decode_utt_width_0:
  assumes "0 < time"
  shows "\<exists>e. decode_utt blank num_classes m time 0 = Inl e"
proof (cases "final_beam blank num_classes m time 0")
  case (Inl e)
  then show ?thesis by (simp add: decode_utt_def)
next
  case (Inr fb)
  have "[0..<nat time] \<noteq> []"
    using assms by simp
  then have "fb = []"
    using Inr unfolding final_beam_def by (rule time_loop_width_0)
  with Inr show ?thesis by (simp add: decode_utt_def)
qed

lemma topk_0: "topk 0 log_probs = Inr []"
  by (simp add: topk_def)

lemma expand_width_0:
  "expand m dir enc 0 b h = Inr (es, h') \<Longrightarrow> es = []"
  by (auto simp add: expand_def topk_0 Let_def split: decoding_order.splits if_splits prod.splits)

lemma beam_loop_width_0:
  "beam_loop m dir enc 0 beam h = Inr (es, h') \<Longrightarrow> es = []"
proof (induction beam arbitrary: h es)
  case Nil
  then show ?case by simp
next
  case (Cons b bs)
  from Cons.prems obtain es1 h1 es2 where e: "expand m dir enc 0 b h = Inr (es1, h1)"
    and r: "beam_loop m dir enc 0 bs h1 = Inr (es2, h')" and es: "es = es1 @ es2"
    by (auto split: sum.splits prod.splits)
  show ?case
    using expand_width_0 [OF e] Cons.IH [OF r] es by simp
qed

lemma search_loop_nothing:
  assumes "beam_width = 0 \<or> ts = []"
    and "search_loop m dir enc beam_width ts [] beam h = Inr (completed, beam', h')"
  shows "completed = [] \<and> beam' = beam"
proof (cases ts)
  case Nil
  with assms(2) show ?thesis by simp
next
  case (Cons t ts')
  with assms(1) have w: "beam_width = 0" by simp
  from assms(2) obtain new_beam h1 where
    b: "beam_loop m dir enc 0 beam h = Inr (new_beam, h1)"
    unfolding Cons w by (auto split: sum.splits prod.splits)
  have n: "new_beam = []"
    using b by (rule beam_loop_width_0)
  show ?thesis
    using assms(2) unfolding Cons w
    by (simp add: b n sorted_desc_def py_slice_to_def)
qed

lemma aw_steps_renormalize:
  "map aw_steps (renormalize length_penalty cs) = map aw_steps cs"
  by (simp add: renormalize_def)

lemma hyp_renormalize:
  "map hyp (renormalize length_penalty cs) = map hyp cs"
  by (simp add: renormalize_def)

lemma best_complete_mem:
  assumes "best_complete length_penalty completed beam = Inr c"
  shows "c \<in> set (renormalize length_penalty (if length completed = 0 then beam else completed))"
proof -
  from assms obtain cs where
    "sorted_desc score (renormalize length_penalty
        (if length completed = 0 then beam else completed)) = c # cs"
    by (auto simp add: best_complete_def split: list.splits)
  then have "c \<in> set (sorted_desc score (renormalize length_penalty
        (if length completed = 0 then beam else completed)))"
    by simp
  then show ?thesis
    by (simp only: set_sorted_desc)
qed

lemma beam_utt_nothing:
  assumes "beam_width = 0 \<or> max_decode_len \<le> 0"
    and "beam_utt m dir beam_width max_decode_len length_penalty utt = Inr (out, aws)"
  shows "length aws = 1"
proof -
  obtain beam0 h0 where i: "init_beam m dir utt = (beam0, h0)"
    by (cases "init_beam m dir utt")
  have l: "map (\<lambda>c. length (aw_steps c)) beam0 = [1]"
    using i by (auto simp add: init_beam_def alloc_def split: prod.splits)
  from assms(2) obtain completed beam h c where
    s: "search_loop m dir (fst utt) beam_width [0..<nat max_decode_len] [] beam0 h0
          = Inr (completed, beam, h)"
    and b: "best_complete length_penalty completed beam = Inr c" and a: "aws = aw_steps c"
    by (auto simp add: beam_utt_def search_utt_def i split: sum.splits prod.splits)
  have "beam_width = 0 \<or> [0..<nat max_decode_len] = []"
    using assms(1) by auto
  then have n: "completed = [] \<and> beam = beam0"
    using s by (rule search_loop_nothing)
  have "c \<in> set (renormalize length_penalty beam0)"
    using best_complete_mem [OF b] n by simp
  then have "aw_steps c \<in> set (map aw_steps beam0)"
    using aw_steps_renormalize [of length_penalty beam0] by (metis image_eqI set_map)
  then have "length (aw_steps c) \<in> set (map (\<lambda>c. length (aw_steps c)) beam0)"
    by auto
  then show ?thesis
    by (simp add: l a)
qed

lemma stack_aw_initial_only:
  "length aw_j = 1 \<Longrightarrow> stack_aw m (aw_j # aw) = Inl RuntimeError"
  by (cases aw_j) simp_all

lemma decode_infer_beam_nothing:
  assumes "enc_out \<noteq> []" and "beam_width = 0 \<or> max_decode_len \<le> 0"
  shows "\<exists>e. decode_infer_beam m enc_out beam_width max_decode_len length_penalty
           coverage_penalty dir = Inl e"
proof (cases "beam_batch m dir beam_width max_decode_len length_penalty enc_out")
  case (Inl e)
  then show ?thesis by (simp add: decode_infer_beam_def)
next
  case (Inr rs)
  obtain utt utts where u: "enc_out = utt # utts"
    using assms(1) by (cases enc_out) auto
  from Inr obtain r rs' where r: "beam_utt m dir beam_width max_decode_len length_penalty utt = Inr r"
    and rs: "rs = r # rs'"
    unfolding u by (auto split: sum.splits)
  have "length (snd r) = 1"
    using beam_utt_nothing [OF assms(2), of m dir length_penalty utt "fst r" "snd r"] r by simp
  then have "stack_aw m (map snd rs) = Inl RuntimeError"
    by (simp add: rs stack_aw_initial_only)
  then show ?thesis
    using Inr by (simp add: decode_infer_beam_def)
qed

text \<open>
  Claim C5, as the code has it. Neither decoder checks its configuration before decoding; an
  invalid configuration is met by an error only where a later operation fails. The CTC
  decoder with beam width 0 on an utterance of at least one frame ends in an error (the read
  of \<^verbatim>\<open>beam[0]\<close> after the time loop, or an earlier one). The attention decoder with beam width 0,
  or with \<open>max_decode_len \<le> 0\<close> and a beam width other than 1, on a batch that is not empty,
  ends in an error (stacking the empty attention trace after the search, or an earlier one).
\<close>

theorem invalid_configuration_errors:
  "(0 < time \<longrightarrow> (\<exists>e. decode_utt blank num_classes log_probs time 0 = Inl e))
   \<and> (enc_out \<noteq> [] \<and> beam_width \<noteq> 1 \<and> (beam_width = 0 \<or> max_decode_len \<le> 0) \<longrightarrow>
       (\<exists>e. decode m enc_out beam_width max_decode_len length_penalty coverage_penalty = Inl e))"
  using decode_utt_width_0 [of time blank num_classes log_probs]
    decode_infer_beam_nothing [of enc_out beam_width max_decode_len m length_penalty coverage_penalty]
  by (auto simp add: decode_def Let_def)

theorem invalid_configuration_errors_witness:
  "decode_utt 0 2 m_blank 1 0 = Inl IndexError
   \<and> decode (model_fixed 0 Conditional) [([0], 1)] 2 0 0 0 = Inl RuntimeError"
  using invalid_configuration_errors [of 1 0 2 m_blank "[([0], 1)]" 2 0 "model_fixed 0 Conditional" 0 0]
  by (simp add: m_blank_def ctc_eval attn_eval)

text \<open>
  Claim C5 as stated has every invalid configuration rejected. The CTC decoder with the blank
  index 5 on two classes returns a label sequence (every class is then a label), and so it
  does with the beam width \<open>-1\<close>, which drops the last entry of the sorted beam.
\<close>

theorem invalid_configuration_accepted_counterexample:
  "decode_utt 5 2 m_blank 1 1 = Inr [0] \<and> decode_utt 0 2 m_blank 1 (- 1) = Inr []"
  by (simp add: m_blank_def ctc_eval)

section \<open>Attention: the decoder states of a branching\<close>






lemma copies_of_cong:
  assumes "copies_of val h es h'" and "\<forall>e\<in>set es. val e = val' e"
  shows "copies_of val' h es h'"
  using assms unfolding copies_of_def by auto








section \<open>Attention: the returned sequence\<close>

lemma extended_entry:
  "well_started sos b \<Longrightarrow>
   extended sos \<lparr>hyp = hyp b @ [y], score = s, dec_state = a, dec_out = d,
     aw_steps = aw_steps b @ [aw_step]\<rparr>"
  by (cases "hyp b") (simp_all add: well_started_def extended_def)

lemma branch_update_extended:
  assumes "branch_update n b context_vec aw_step best_k h = (es, h')" and "well_started sos b"
  shows "\<forall>e\<in>set es. extended sos e"
  using assms(1)
proof (induction best_k arbitrary: h es h')
  case Nil
  then show ?case by simp
next
  case (Cons p rest)
  obtain log_prob y where p: "p = (log_prob, y)" by (cases p)
  obtain dec_out' dec_state' where d: "decoder n y context_vec (h ! dec_state b) = (dec_out', dec_state')"
    by (cases "decoder n y context_vec (h ! dec_state b)")
  define h2 where "h2 = h @ [dec_state', dec_state']"
  obtain es1 h3 where r: "branch_update n b context_vec aw_step rest h2 = (es1, h3)"
    by (cases "branch_update n b context_vec aw_step rest h2")
  from Cons.prems have es: "es = \<lparr>hyp = hyp b @ [y], score = score b + log_prob,
      dec_state = Suc (length h), dec_out = dec_out', aw_steps = aw_steps b @ [aw_step]\<rparr> # es1"
    using r by (simp add: p d deepcopy_def alloc_def h2_def)
  show ?case
    using Cons.IH [OF r] extended_entry [OF assms(2)] by (simp add: es)
qed

lemma branch_copy_extended:
  assumes "branch_copy b dec_out' a aw_step best_k h = (es, h')" and "well_started sos b"
  shows "\<forall>e\<in>set es. extended sos e"
  using assms(1)
proof (induction best_k arbitrary: h es h')
  case Nil
  then show ?case by simp
next
  case (Cons p rest)
  obtain log_prob y where p: "p = (log_prob, y)" by (cases p)
  define h1 where "h1 = h @ [h ! a]"
  obtain es1 h2 where r: "branch_copy b dec_out' a aw_step rest h1 = (es1, h2)"
    by (cases "branch_copy b dec_out' a aw_step rest h1")
  from Cons.prems have es: "es = \<lparr>hyp = hyp b @ [y], score = score b + log_prob,
      dec_state = length h, dec_out = dec_out', aw_steps = aw_steps b @ [aw_step]\<rparr> # es1"
    using r by (simp add: p deepcopy_def alloc_def h1_def)
  show ?case
    using Cons.IH [OF r] extended_entry [OF assms(2)] by (simp add: es)
qed

lemma expand_extended:
  assumes "expand m dir enc beam_width b h = Inr (es, h')" and "well_started sos b"
  shows "\<forall>e\<in>set es. extended sos e"
proof (cases "order m")
  case AttendGenerateUpdate
  with assms(1) obtain context_vec aw_step best_k where
    "branch_update (layers_0 m dir) b context_vec aw_step best_k h = (es, h')"
    by (auto simp add: expand_def Let_def split: if_splits prod.splits sum.splits)
  then show ?thesis using assms(2) by (rule branch_update_extended)
next
  case AttendUpdateGenerate
  with assms(1) obtain dec_out' a h1 aw_step best_k where
    "branch_copy b dec_out' a aw_step best_k h1 = (es, h')"
    by (auto simp add: expand_def Let_def split: if_splits prod.splits sum.splits)
  then show ?thesis using assms(2) by (rule branch_copy_extended)
next
  case Conditional
  with assms(1) obtain dec_out' a h1 aw_step best_k where
    "branch_copy b dec_out' a aw_step best_k h1 = (es, h')"
    by (auto simp add: expand_def Let_def split: if_splits prod.splits sum.splits)
  then show ?thesis using assms(2) by (rule branch_copy_extended)
next
  case OtherOrder
  with assms(1) show ?thesis by (simp add: expand_def)
qed

lemma beam_loop_extended:
  assumes "beam_loop m dir enc beam_width beam h = Inr (es, h')"
    and "\<forall>b\<in>set beam. well_started sos b"
  shows "\<forall>e\<in>set es. extended sos e"
  using assms
proof (induction beam arbitrary: h es h')
  case Nil
  then show ?case by simp
next
  case (Cons b bs)
  from Cons.prems(1) obtain es1 h1 es2 where e: "expand m dir enc beam_width b h = Inr (es1, h1)"
    and r: "beam_loop m dir enc beam_width bs h1 = Inr (es2, h')" and es: "es = es1 @ es2"
    by (auto split: sum.splits prod.splits)
  have b: "well_started sos b" and bs: "\<forall>b\<in>set bs. well_started sos b"
    using Cons.prems(2) by simp_all
  show ?case
    using expand_extended [OF e b] Cons.IH [OF r bs] by (auto simp add: es)
qed

lemma search_loop_extended:
  assumes "search_loop m dir enc beam_width ts completed beam h = Inr (completed', beam', h')"
    and "\<forall>b\<in>set beam. well_started sos b"
    and "\<forall>c\<in>set completed. extended sos c \<and> last (hyp c) = eos_0 m"
  shows "(\<forall>b\<in>set beam'. well_started sos b)
       \<and> (\<forall>c\<in>set completed'. extended sos c \<and> last (hyp c) = eos_0 m)"
  using assms
proof (induction ts arbitrary: completed beam h)
  case Nil
  then show ?case by simp
next
  case (Cons t ts)
  from Cons.prems(1) obtain new_beam h1 where
    b: "beam_loop m dir enc beam_width beam h = Inr (new_beam, h1)"
    by (auto split: sum.splits prod.splits)
  define cands where "cands = py_slice_to beam_width (sorted_desc score new_beam)"
  define completed1 where
    "completed1 = completed @ filter (\<lambda>cand. last (hyp cand) = eos_0 m) cands"
  define not_complete where "not_complete = filter (\<lambda>cand. last (hyp cand) \<noteq> eos_0 m) cands"
  have nb: "\<forall>e\<in>set new_beam. extended sos e"
    using b Cons.prems(2) by (rule beam_loop_extended)
  have "set cands \<subseteq> set new_beam"
    using set_py_slice_to [of beam_width "sorted_desc score new_beam"]
    by (simp add: cands_def set_sorted_desc)
  then have cs: "\<forall>e\<in>set cands. extended sos e"
    using nb by blast
  have c1: "\<forall>c\<in>set completed1. extended sos c \<and> last (hyp c) = eos_0 m"
    using Cons.prems(3) cs by (auto simp add: completed1_def)
  have nc: "\<forall>b\<in>set (py_slice_to beam_width not_complete). well_started sos b"
    using set_py_slice_to [of beam_width not_complete] cs
    by (auto simp add: not_complete_def extended_def)
  show ?case
  proof (cases "beam_width \<le> int (length completed1)")
    case True
    then have "completed' = py_slice_to beam_width completed1" and "beam' = beam"
      using Cons.prems(1) b
      by (simp_all add: Let_def cands_def completed1_def)
    then show ?thesis
      using c1 Cons.prems(2) set_py_slice_to [of beam_width completed1] by auto
  next
    case False
    then have "search_loop m dir enc beam_width ts completed1
        (py_slice_to beam_width not_complete) h1 = Inr (completed', beam', h')"
      using Cons.prems(1) b
      by (simp add: Let_def cands_def completed1_def not_complete_def)
    then show ?thesis
      using nc c1 by (rule Cons.IH)
  qed
qed

lemma init_beam_well_started:
  "init_beam m dir utt = (beam, h) \<Longrightarrow> \<forall>b\<in>set beam. well_started (sos_0 m) b"
  by (auto simp add: init_beam_def alloc_def well_started_def split: prod.splits)

lemma renormalize_mem:
  assumes "c \<in> set (renormalize length_penalty cs)"
  obtains c0 where "c0 \<in> set cs" and "hyp c = hyp c0" and "aw_steps c = aw_steps c0"
  using assms by (auto simp add: renormalize_def split: if_splits)

lemma beam_utt_keeps_end:
  assumes "beam_utt m dir beam_width max_decode_len length_penalty utt = Inr (out, aws)"
  shows "\<exists>completed beam h c.
      search_utt m dir beam_width max_decode_len utt = Inr (completed, beam, h)
    \<and> best_complete length_penalty completed beam = Inr c
    \<and> hyp c = sos_0 m # out \<and> aws = aw_steps c \<and> length aws = Suc (length out)
    \<and> (completed \<noteq> [] \<longrightarrow> out \<noteq> [] \<and> last out = eos_0 m)"
proof -
  from assms obtain completed beam h c where
    s: "search_utt m dir beam_width max_decode_len utt = Inr (completed, beam, h)"
    and b: "best_complete length_penalty completed beam = Inr c"
    and out: "out = drop 1 (hyp c)" and aws: "aws = aw_steps c"
    by (auto simp add: beam_utt_def split: sum.splits prod.splits)
  obtain beam0 h0 where i: "init_beam m dir utt = (beam0, h0)"
    by (cases "init_beam m dir utt")
  have l: "search_loop m dir (fst utt) beam_width [0..<nat max_decode_len] [] beam0 h0
      = Inr (completed, beam, h)"
    using s by (simp add: search_utt_def i)
  have inv: "(\<forall>b\<in>set beam. well_started (sos_0 m) b)
       \<and> (\<forall>c\<in>set completed. extended (sos_0 m) c \<and> last (hyp c) = eos_0 m)"
    using l init_beam_well_started [OF i] by (rule search_loop_extended) simp
  obtain c0 where c0: "c0 \<in> set (if length completed = 0 then beam else completed)"
    and hc: "hyp c = hyp c0" and ac: "aw_steps c = aw_steps c0"
    using best_complete_mem [OF b] by (rule renormalize_mem)
  have w: "well_started (sos_0 m) c0"
    using c0 inv by (auto simp add: extended_def split: if_splits)
  have e: "2 \<le> length (hyp c0) \<and> last (hyp c0) = eos_0 m" if "completed \<noteq> []"
    using c0 inv that by (auto simp add: extended_def)
  obtain tl0 where h0: "hyp c0 = sos_0 m # tl0"
    using w by (cases "hyp c0") (auto simp add: well_started_def)
  have o: "out = tl0"
    by (simp add: out hc h0)
  have "length aws = Suc (length out)"
    using w by (simp add: aws ac o h0 well_started_def)
  moreover have "out \<noteq> [] \<and> last out = eos_0 m" if "completed \<noteq> []"
    using e [OF that] by (auto simp add: o h0 split: if_splits)
  ultimately show ?thesis
    using s b by (auto simp add: hc h0 o aws)
qed

lemma beam_batch_nth:
  assumes "beam_batch m dir beam_width max_decode_len length_penalty utts = Inr rs"
  shows "length rs = length utts
       \<and> (\<forall>j<length utts.
            beam_utt m dir beam_width max_decode_len length_penalty (utts ! j) = Inr (rs ! j))"
  using assms
proof (induction utts arbitrary: rs)
  case Nil
  then show ?case by simp
next
  case (Cons utt utts)
  from Cons.prems obtain r rs' where
    r: "beam_utt m dir beam_width max_decode_len length_penalty utt = Inr r"
    and t: "beam_batch m dir beam_width max_decode_len length_penalty utts = Inr rs'"
    and rs: "rs = r # rs'"
    by (auto split: sum.splits)
  show ?case
    using Cons.IH [OF t] r by (auto simp add: rs nth_Cons split: nat.splits)
qed

lemma stack_aw_nth:
  assumes "stack_aw m aw = Inr stacked"
  shows "length stacked = length aw
       \<and> (\<forall>j<length aw. stacked ! j = map (head_0 m) (drop 1 (aw ! j)))"
  using assms
proof (induction aw arbitrary: stacked)
  case Nil
  then show ?case by simp
next
  case (Cons aw_j aw)
  from Cons.prems obtain rest where
    t: "stack_aw m aw = Inr rest"
    and st: "stacked = map (head_0 m) (drop 1 aw_j) # rest"
    by (auto split: sum.splits list.splits)
  show ?case
    using Cons.IH [OF t] by (auto simp add: st nth_Cons split: nat.splits)
qed

text \<open>
  Claim C2, as the code has it. For a beam width above 1, every utterance of a decoded batch
  gets the symbol sequence of the top-ranked entry of its completed set (the beam, when
  nothing completed), with the start symbol removed and nothing else: when a hypothesis
  completed, the returned sequence is not empty and its last symbol is the end symbol. The
  attention trace returned with it is the trace of that entry without the initial weights,
  head 0 of each step, one step per returned symbol.
\<close>

theorem decode_beam_keeps_end:
  assumes "1 < beam_width"
    and "decode m enc_out beam_width max_decode_len length_penalty coverage_penalty
           = Inr (best_hyps, aw)"
  shows "length best_hyps = length enc_out \<and> length aw = length enc_out
     \<and> (\<forall>j<length enc_out. \<exists>completed beam h c.
           search_utt m Fwd beam_width max_decode_len (enc_out ! j) = Inr (completed, beam, h)
         \<and> best_complete length_penalty completed beam = Inr c
         \<and> hyp c = sos_0 m # best_hyps ! j
         \<and> aw ! j = map (head_0 m) (drop 1 (aw_steps c))
         \<and> length (aw ! j) = length (best_hyps ! j)
         \<and> (completed \<noteq> [] \<longrightarrow> best_hyps ! j \<noteq> [] \<and> last (best_hyps ! j) = eos_0 m))"
proof -
  from assms obtain dir where
    d: "decode_infer_beam m enc_out beam_width max_decode_len length_penalty coverage_penalty dir
          = Inr (best_hyps, aw)"
    by (auto simp add: decode_def Let_def split: if_splits)
  have dir: "dir = Fwd"
    using d by (cases dir) (auto simp add: decode_infer_beam_def split: if_splits sum.splits)
  from d obtain rs where
    rs: "beam_batch m Fwd beam_width max_decode_len length_penalty enc_out = Inr rs"
    and st: "stack_aw m (map snd rs) = Inr aw" and bh: "best_hyps = map fst rs"
    unfolding dir by (auto simp add: decode_infer_beam_def split: if_splits sum.splits)
  have lr: "length rs = length enc_out"
    and nr: "\<And>j. j < length enc_out \<Longrightarrow>
      beam_utt m Fwd beam_width max_decode_len length_penalty (enc_out ! j) = Inr (rs ! j)"
    using beam_batch_nth [OF rs] by simp_all
  have la: "length aw = length enc_out"
    and na: "\<And>j. j < length enc_out \<Longrightarrow> aw ! j = map (head_0 m) (drop 1 (snd (rs ! j)))"
    using stack_aw_nth [OF st] lr by simp_all
  have "\<exists>completed beam h c.
           search_utt m Fwd beam_width max_decode_len (enc_out ! j) = Inr (completed, beam, h)
         \<and> best_complete length_penalty completed beam = Inr c
         \<and> hyp c = sos_0 m # best_hyps ! j
         \<and> aw ! j = map (head_0 m) (drop 1 (aw_steps c))
         \<and> length (aw ! j) = length (best_hyps ! j)
         \<and> (completed \<noteq> [] \<longrightarrow> best_hyps ! j \<noteq> [] \<and> last (best_hyps ! j) = eos_0 m)"
    if j: "j < length enc_out" for j
  proof -
    have u: "beam_utt m Fwd beam_width max_decode_len length_penalty (enc_out ! j)
        = Inr (fst (rs ! j), snd (rs ! j))"
      using nr [OF j] by simp
    have f: "best_hyps ! j = fst (rs ! j)"
      using j lr by (simp add: bh)
    from beam_utt_keeps_end [OF u] obtain completed beam h c where
      k: "search_utt m Fwd beam_width max_decode_len (enc_out ! j) = Inr (completed, beam, h)"
        "best_complete length_penalty completed beam = Inr c"
        "hyp c = sos_0 m # fst (rs ! j)" "snd (rs ! j) = aw_steps c"
        "length (snd (rs ! j)) = Suc (length (fst (rs ! j)))"
        "completed \<noteq> [] \<longrightarrow> fst (rs ! j) \<noteq> [] \<and> last (fst (rs ! j)) = eos_0 m"
      by blast
    have "length (aw ! j) = length (best_hyps ! j)"
      using k(5) by (simp add: na [OF j] f)
    then show ?thesis
      using k by (auto simp add: f na [OF j])
  qed
  then show ?thesis
    using lr la by (simp add: bh)
qed

lemma decode_fixed:
  "decode (model_fixed 0 AttendGenerateUpdate) [([0], 1)] 2 5 0 0 = Inr ([[2]], [[[1]]])"
  by (simp add: attn_eval)

theorem decode_beam_keeps_end_witness:
  "1 < (2 :: int)
   \<and> decode (model_fixed 0 AttendGenerateUpdate) [([0], 1)] 2 5 0 0 = Inr ([[2]], [[[1]]])
   \<and> (\<exists>completed beam h c.
         search_utt (model_fixed 0 AttendGenerateUpdate) Fwd 2 5 ([0], 1)
           = Inr (completed, beam, h)
       \<and> best_complete 0 completed beam = Inr c
       \<and> hyp c = [3, 2])"
  using decode_beam_keeps_end [of 2 "model_fixed 0 AttendGenerateUpdate" "[([0], 1)]" 5 0 0
      "[[2]]" "[[[1]]]"] decode_fixed
  by (auto simp add: model_fixed_def)

text \<open>
  Claim C2 as stated has the end symbol excluded. For the model whose end symbol 2 always has
  probability 7/10, the beam search of width 2 returns the sequence \<open>[2]\<close>: the end symbol is
  part of the output.
\<close>

theorem decode_beam_returns_end_counterexample:
  "decode (model_fixed 0 AttendGenerateUpdate) [([0], 1)] 2 5 0 0 = Inr ([[2]], [[[1]]])
   \<and> eos_0 (model_fixed 0 AttendGenerateUpdate) = 2"
  by (simp add: attn_eval)

section \<open>CTC: the beam width and the score of the result\<close>

lemma py_slice_to_wider:
  assumes "0 \<le> w1" and "w1 \<le> w2"
  shows "\<exists>extra. py_slice_to w2 xs = py_slice_to w1 xs @ extra"
proof -
  have "take (nat w1) (take (nat w2) xs) = take (nat w1) xs"
    using assms by (simp add: min_def)
  then have "take (nat w2) xs = take (nat w1) xs @ drop (nat w1) (take (nat w2) xs)"
    by (metis append_take_drop_id)
  then show ?thesis
    using assms by (auto simp add: py_slice_to_def)
qed

lemma time_step_same_beam:
  assumes "0 \<le> w1" and "w1 \<le> w2"
    and "time_step blank num_classes m w1 t beam = Inr r1"
    and "time_step blank num_classes m w2 t beam = Inr r2"
  shows "\<exists>extra. r2 = r1 @ extra"
proof -
  from assms(3) obtain d where d: "class_loop blank m t beam [0..<num_classes] [] = Inr d"
    and r1: "r1 = py_slice_to w1 (sorted_desc beam_key d)"
    by (auto simp add: time_step_def split: sum.splits)
  from assms(4) d have r2: "r2 = py_slice_to w2 (sorted_desc beam_key d)"
    by (simp add: time_step_def)
  show ?thesis
    unfolding r1 r2 using assms(1,2) by (rule py_slice_to_wider)
qed

lemma best_score_Inr:
  assumes "best_score blank num_classes m time w = Inr s"
  obtains x xs where "final_beam blank num_classes m time w = Inr (x # xs)" and "s = beam_key x"
  using assms by (auto simp add: best_score_def split: sum.splits list.splits)

text \<open>
  Claim C6, as the code has it. On an utterance of at most one frame, and for beam widths
  \<open>0 \<le> w1 \<le> w2\<close> with which the decoder returns a result, the ranking score
  \<open>logaddexp p_b p_nb\<close> of the returned prefix with width \<open>w2\<close> is at least the one with width
  \<open>w1\<close>: the two scores, and the two results, are the same, since the narrower beam is the
  front of the wider one. The proof uses no property of the arithmetic of the scores.
\<close>

theorem best_score_one_frame:
  assumes "time \<le> 1" and "0 \<le> w1" and "w1 \<le> w2"
    and "best_score blank num_classes m time w1 = Inr s1"
    and "best_score blank num_classes m time w2 = Inr s2"
  shows "s1 \<le> s2 \<and> s2 = s1
     \<and> decode_utt blank num_classes m time w2 = decode_utt blank num_classes m time w1"
proof -
  from assms(4) obtain x1 xs1 where
    f1: "final_beam blank num_classes m time w1 = Inr (x1 # xs1)" and s1: "s1 = beam_key x1"
    by (rule best_score_Inr)
  from assms(5) obtain x2 xs2 where
    f2: "final_beam blank num_classes m time w2 = Inr (x2 # xs2)" and s2: "s2 = beam_key x2"
    by (rule best_score_Inr)
  define init :: "beam_entry list" where "init = [([], (LOG_1, LOG_0))]"
  have x: "x2 = x1"
  proof (cases "nat time = 0")
    case True
    then show ?thesis
      using f1 f2 by (simp add: final_beam_def)
  next
    case False
    then have u: "[0..<nat time] = [0]"
      using assms(1) by (simp add: upt_rec)
    have t1: "time_step blank num_classes m w1 0 init = Inr (x1 # xs1)"
      using f1 by (simp add: final_beam_def u init_def split: sum.splits)
    have t2: "time_step blank num_classes m w2 0 init = Inr (x2 # xs2)"
      using f2 by (simp add: final_beam_def u init_def split: sum.splits)
    from time_step_same_beam [OF assms(2,3) t1 t2] show ?thesis
      by auto
  qed
  show ?thesis
    using x by (simp add: s1 s2 decode_utt_def f1 f2)
qed

lemma best_score_m_blank:
  "best_score 0 2 m_blank 1 1 = Inr (of_prob (9 / 10))
   \<and> best_score 0 2 m_blank 1 2 = Inr (of_prob (9 / 10))"
  by (simp add: best_score_def m_blank_def ctc_eval Let_def)

theorem best_score_one_frame_witness:
  "(1 :: int) \<le> 1 \<and> (0 :: int) \<le> 1 \<and> (1 :: int) \<le> 2
   \<and> best_score 0 2 m_blank 1 1 = Inr (of_prob (9 / 10))
   \<and> best_score 0 2 m_blank 1 2 = Inr (of_prob (9 / 10))
   \<and> decode_utt 0 2 m_blank 1 2 = decode_utt 0 2 m_blank 1 1"
  using best_score_one_frame [of 1 1 2 0 2 m_blank "of_prob (9 / 10)" "of_prob (9 / 10)"]
    best_score_m_blank
  by simp

text \<open>
  Claim C6 as stated holds for every matrix. On the three frames of \<open>m_prune\<close> both beams
  return \<open>[b]\<close>, the beam of width 2 with the score \<open>ln (427/1000)\<close> and the beam of width 3
  with the lower score \<open>ln (331/1000)\<close>: after the second frame the beam of width 3 holds
  \<open>[b]\<close>, \<open>[a]\<close> and \<open>[a, b]\<close> and has lost the empty prefix, which the beam of width 2 still
  holds and extends to \<open>[b]\<close> in the third frame.
\<close>

theorem wider_beam_lower_score_counterexample:
  "best_score 0 3 m_prune 3 2 = Inr (of_prob (427 / 1000))
   \<and> best_score 0 3 m_prune 3 3 = Inr (of_prob (331 / 1000))
   \<and> of_prob (331 / 1000) < of_prob (427 / 1000)
   \<and> decode_utt 0 3 m_prune 3 2 = Inr [2]
   \<and> decode_utt 0 3 m_prune 3 3 = Inr [2]"
  by (simp add: best_score_def m_prune_def ctc_eval Let_def)


end
